theory Spec2Isabelle
  imports Main "HOL-Library.Word"
begin

section \<open>JavaScript values\<close>

text \<open>
  The module \<^verbatim>\<open>src/utils/chaincode_ops.js\<close> only tests values for truthiness, calls
  \<^verbatim>\<open>toString()\<close> on them, reads the property \<^verbatim>\<open>result\<close> and serialises them with
  \<^verbatim>\<open>JSON.stringify\<close>. Plain data is a tree: no cycles, no accessor properties and no
  function-valued properties. An object may still have an own property named
  \<^verbatim>\<open>toString\<close>, which then is not a function.
  \<^item> \<open>JNum w\<close> is the number whose value is the signed 32-bit integer \<open>sint w\<close>;
    \<open>JNaN\<close> is the number NaN. Other numbers are not modelled.
  \<^item> \<open>JStr s\<close> is a string whose code units are below 256.
  \<^item> \<open>JBuf t\<close> is a Buffer holding the UTF-8 encoding of the text \<open>t\<close>.
  \<^item> \<open>JObj ps\<close> is an object literal, given by its own enumerable properties in
    enumeration order.
\<close>

datatype jsdata =
    Undefined
  | Null
  | JBool bool
  | JNum "32 word"
  | JNaN
  | JStr string
  | JBuf string
  | JArr "jsdata list"
  | JObj "(string \<times> jsdata) list"

text \<open>
  A value in a position where the module expects a function or an object of the external
  client: plain data, a function (known by its identity only: the caller's callback), a
  chain object (it has the method \<^verbatim>\<open>getMember\<close>) or a member object (it has the methods
  \<^verbatim>\<open>invoke\<close> and \<^verbatim>\<open>query\<close>).
\<close>

datatype jsval =
    Data jsdata
  | Fn nat
  | Chain nat
  | Member nat

text \<open>The test \<^verbatim>\<open>if (v)\<close>: false for undefined, null, false, 0, NaN and the empty string.\<close>

fun truthy :: "jsdata \<Rightarrow> bool" where
  "truthy Undefined = False"
| "truthy Null = False"
| "truthy (JBool b) = b"
| "truthy (JNum w) = (w \<noteq> 0)"
| "truthy JNaN = False"
| "truthy (JStr s) = (s \<noteq> [])"
| "truthy (JBuf t) = True"
| "truthy (JArr xs) = True"
| "truthy (JObj ps) = True"

fun truthy_val :: "jsval \<Rightarrow> bool" where
  "truthy_val (Data d) = truthy d"
| "truthy_val (Fn k) = True"
| "truthy_val (Chain c) = True"
| "truthy_val (Member m) = True"

fun nullish :: "jsdata \<Rightarrow> bool" where
  "nullish Undefined = True"
| "nullish Null = True"
| "nullish v = False"

datatype js_error = TypeError | Error string

subsection \<open>Conversion to text\<close>

definition digit :: "nat \<Rightarrow> char" where
  "digit d = char_of (48 + d)"

fun show_nat :: "nat \<Rightarrow> string" where
  "show_nat n = (if n < 10 then [digit n] else show_nat (n div 10) @ [digit (n mod 10)])"

declare show_nat.simps [simp del]

definition show_int :: "int \<Rightarrow> string" where
  "show_int i = (if i < 0 then CHR ''-'' # show_nat (nat (- i)) else show_nat (nat i))"

fun join :: "string \<Rightarrow> string list \<Rightarrow> string" where
  "join sep [] = []"
| "join sep [x] = x"
| "join sep (x # y # ys) = x @ sep @ join sep (y # ys)"

text \<open>
  The text of a value, as \<^verbatim>\<open>String(v)\<close> and the concatenation \<^verbatim>\<open>'' + v\<close> give it, or
  \<open>None\<close> where they throw a TypeError. An array joins the texts of its elements with
  commas, null and undefined elements giving the empty text; a Buffer decodes its bytes;
  an object literal is \<^verbatim>\<open>[object Object]\<close>, unless it has an own property \<^verbatim>\<open>toString\<close>:
  that property is not a function, the inherited \<^verbatim>\<open>valueOf\<close> returns the object itself,
  and the conversion throws.
\<close>

fun js_string :: "jsdata \<Rightarrow> string option" where
  "js_string Undefined = Some ''undefined''"
| "js_string Null = Some ''null''"
| "js_string (JBool b) = Some (if b then ''true'' else ''false'')"
| "js_string (JNum w) = Some (show_int (sint w))"
| "js_string JNaN = Some ''NaN''"
| "js_string (JStr s) = Some s"
| "js_string (JBuf t) = Some t"
| "js_string (JArr xs) =
     map_option (join '','')
       (those (map (\<lambda>x. if nullish x then Some [] else js_string x) xs))"
| "js_string (JObj ps) =
     (case map_of ps ''toString'' of None \<Rightarrow> Some ''[object Object]'' | Some v \<Rightarrow> None)"

text \<open>
  The method call \<^verbatim>\<open>v.toString()\<close>: a TypeError on null and undefined, and where the
  method found is not a function or an element of an array cannot be converted.
\<close>

definition toString :: "jsdata \<Rightarrow> js_error + jsdata" where
  "toString v =
     (if nullish v then Inl TypeError
      else (case js_string v of None \<Rightarrow> Inl TypeError | Some s \<Rightarrow> Inr (JStr s)))"

text \<open>The property read \<^verbatim>\<open>v.result\<close>: a TypeError on null and undefined, undefined where
  the value has no such property.\<close>

fun prop_result :: "jsdata \<Rightarrow> js_error + jsdata" where
  "prop_result Undefined = Inl TypeError"
| "prop_result Null = Inl TypeError"
| "prop_result (JObj ps) = Inr (case map_of ps ''result'' of None \<Rightarrow> Undefined | Some v \<Rightarrow> v)"
| "prop_result v = Inr Undefined"

subsection \<open>JSON.stringify\<close>

definition hex_digit :: "nat \<Rightarrow> char" where
  "hex_digit d = (if d < 10 then char_of (48 + d) else char_of (87 + d))"

definition escape_char :: "char \<Rightarrow> string" where
  "escape_char c =
     (if c = CHR 0x22 then [CHR 0x5C, CHR 0x22]
      else if c = CHR 0x5C then [CHR 0x5C, CHR 0x5C]
      else if c = CHR 0x08 then [CHR 0x5C, CHR ''b'']
      else if c = CHR 0x0C then [CHR 0x5C, CHR ''f'']
      else if c = CHR 0x0A then [CHR 0x5C, CHR ''n'']
      else if c = CHR 0x0D then [CHR 0x5C, CHR ''r'']
      else if c = CHR 0x09 then [CHR 0x5C, CHR ''t'']
      else if (of_char c :: nat) < 32
        then [CHR 0x5C, CHR ''u'', CHR ''0'', CHR ''0'',
              hex_digit (of_char c div 16), hex_digit (of_char c mod 16)]
      else [c])"

definition quote :: "string \<Rightarrow> string" where
  "quote s = CHR 0x22 # concat (map escape_char s) @ [CHR 0x22]"

definition utf8 :: "string \<Rightarrow> nat list" where
  "utf8 t = concat (map (\<lambda>c. if (of_char c :: nat) < 128 then [of_char c]
                             else [192 + of_char c div 64, 128 + of_char c mod 64]) t)"

text \<open>
  The JSON text of a value, \<open>None\<close> where \<^verbatim>\<open>JSON.stringify\<close> gives undefined: an undefined
  array element is written \<^verbatim>\<open>null\<close>, a property whose value is undefined is left out, NaN is
  written \<^verbatim>\<open>null\<close>, and a Buffer is written through its \<^verbatim>\<open>toJSON\<close> as an object of its
  bytes. An own property \<^verbatim>\<open>toJSON\<close> of an object literal is not a function and is
  written like any other property.
\<close>

fun json_text :: "jsdata \<Rightarrow> string option" where
  "json_text Undefined = None"
| "json_text Null = Some ''null''"
| "json_text (JBool b) = Some (if b then ''true'' else ''false'')"
| "json_text (JNum w) = Some (show_int (sint w))"
| "json_text JNaN = Some ''null''"
| "json_text (JStr s) = Some (quote s)"
| "json_text (JBuf t) =
     Some (''{'' @ quote ''type'' @ '':'' @ quote ''Buffer'' @ '','' @ quote ''data'' @ '':[''
           @ join '','' (map show_nat (utf8 t)) @ '']}'')"
| "json_text (JArr xs) =
     Some (''['' @ join '','' (map (\<lambda>x. case json_text x of None \<Rightarrow> ''null'' | Some t \<Rightarrow> t) xs)
           @ '']'')"
| "json_text (JObj ps) =
     Some (''{'' @ join '','' (concat (map (\<lambda>(k, v). case json_text v of None \<Rightarrow> []
                                            | Some t \<Rightarrow> [quote k @ '':'' @ t]) ps)) @ ''}'')"

definition JSON_stringify :: "jsdata \<Rightarrow> jsdata" where
  "JSON_stringify v = (case json_text v of None \<Rightarrow> Undefined | Some t \<Rightarrow> JStr t)"

section \<open>Callbacks and the external client\<close>

text \<open>
  What one run of a callback or of an event listener does: it ends by calling the
  function \<open>k\<close> of the caller with some arguments, it throws, or it does neither. The
  calls of \<^verbatim>\<open>console.log\<close> and \<^verbatim>\<open>console.error\<close> are left out; the evaluation of their
  arguments is not, where it can throw.
\<close>

datatype outcome =
    Invoked nat "jsdata list"
  | Thrown js_error
  | Silent

text \<open>
  A callback handed to \<^verbatim>\<open>invoke\<close> or \<^verbatim>\<open>query\<close> is a closure of this module, of the form
  \<^verbatim>\<open>function(err, result)\<close>, or whatever value the caller passed.
\<close>

datatype callback =
    Closure "jsdata \<Rightarrow> jsdata \<Rightarrow> outcome"
  | Value jsval

text \<open>A parameter that the call does not supply is undefined.\<close>

definition arg :: "jsdata list \<Rightarrow> nat \<Rightarrow> jsdata" where
  "arg as i = (if i < length as then as ! i else Undefined)"

text \<open>The call \<^verbatim>\<open>cb(...)\<close>: a TypeError where \<^verbatim>\<open>cb\<close> is not a function.\<close>

fun call :: "callback \<Rightarrow> jsdata list \<Rightarrow> outcome" where
  "call (Closure f) as = f (arg as 0) (arg as 1)"
| "call (Value (Fn k)) as = Invoked k as"
| "call (Value (Data d)) as = Thrown TypeError"
| "call (Value (Chain c)) as = Thrown TypeError"
| "call (Value (Member m)) as = Thrown TypeError"

fun truthy_cb :: "callback \<Rightarrow> bool" where
  "truthy_cb (Closure f) = True"
| "truthy_cb (Value v) = truthy_val v"

text \<open>The request object \<^verbatim>\<open>{chaincodeID, fcn, args, attrs}\<close>; \<^verbatim>\<open>attrs\<close> may be absent.\<close>

record request =
  chaincodeID :: jsdata
  fcn :: string
  args :: "jsdata list"
  attrs :: "jsdata list option"

datatype tx_kind = InvokeTx | QueryTx

text \<open>
  The emitter that \<^verbatim>\<open>usr.invoke(requestBody)\<close> or \<^verbatim>\<open>usr.query(requestBody)\<close> returns, with
  the listeners that the module registers on it with \<^verbatim>\<open>on\<close>, in order.
\<close>

record submission =
  tx_method :: tx_kind
  tx_member :: nat
  tx_request :: request
  listeners :: "(string \<times> (jsdata \<Rightarrow> outcome)) list"

text \<open>The external client emits an event: the listener registered for it runs.\<close>

definition emit :: "submission \<Rightarrow> string \<Rightarrow> jsdata \<Rightarrow> outcome" where
  "emit tx name payload =
     (case map_of (listeners tx) name of None \<Rightarrow> Silent | Some listener \<Rightarrow> listener payload)"

fun deliver :: "submission \<Rightarrow> (string \<times> jsdata) list \<Rightarrow> outcome list" where
  "deliver tx [] = []"
| "deliver tx ((name, payload) # evs) = emit tx name payload # deliver tx evs"

text \<open>
  What the callback given to \<^verbatim>\<open>chain.getMember\<close> does when the client calls it with
  \<^verbatim>\<open>(getMemberError, usr)\<close>: it resolves the call at once, or it submits a transaction.
\<close>

datatype resolution =
    Resolved (res_outcome: outcome)
  | Submitted (res_tx: submission)

record getMember_call =
  gm_chain :: nat
  gm_enrollID :: jsdata
  gm_callback :: "jsdata \<Rightarrow> jsval \<Rightarrow> resolution"

section \<open>The helpers invoke and query\<close>

text \<open>
  \<^verbatim>\<open>function invoke(chain, enrollID, requestBody, cb)\<close>: the call of
  \<^verbatim>\<open>chain.getMember\<close> throws a TypeError where \<^verbatim>\<open>chain\<close> is not a chain object, and
  \<^verbatim>\<open>usr.invoke\<close> where \<^verbatim>\<open>usr\<close> is not a member object. When \<^verbatim>\<open>getMember\<close> fails, the
  message \<^verbatim>\<open>'failed to get ' + enrollID + ' member:'\<close> is built for the log before
  \<^verbatim>\<open>cb\<close> is tested, and building it throws where enrollID has no text.
\<close>

definition invoke :: "jsval \<Rightarrow> jsdata \<Rightarrow> request \<Rightarrow> callback \<Rightarrow> js_error + getMember_call" where
  "invoke chain enrollID requestBody cb =
     (case chain of
        Chain c \<Rightarrow>
          Inr \<lparr>gm_chain = c, gm_enrollID = enrollID,
               gm_callback = (\<lambda>getMemberError usr.
                 if truthy getMemberError
                 then (case js_string enrollID of
                         None \<Rightarrow> Resolved (Thrown TypeError)
                       | Some logged \<Rightarrow>
                           Resolved (if truthy_cb cb then call cb [getMemberError] else Silent))
                 else (case usr of
                         Member m \<Rightarrow>
                           Submitted \<lparr>tx_method = InvokeTx, tx_member = m,
                                      tx_request = requestBody,
                                      listeners =
                                        [(''completed'', \<lambda>results. call cb [Null, results]),
                                         (''submitted'', \<lambda>results. call cb [Null, results]),
                                         (''error'', \<lambda>err. call cb [err])]\<rparr>
                       | _ \<Rightarrow> Resolved (Thrown TypeError)))\<rparr>
      | _ \<Rightarrow> Inl TypeError)"

text \<open>
  \<^verbatim>\<open>function query(chain, enrollID, requestBody, cb)\<close>: as \<^verbatim>\<open>invoke\<close>, but on
  \<^verbatim>\<open>complete\<close> it passes \<^verbatim>\<open>results.result\<close>.
\<close>

definition query :: "jsval \<Rightarrow> jsdata \<Rightarrow> request \<Rightarrow> callback \<Rightarrow> js_error + getMember_call" where
  "query chain enrollID requestBody cb =
     (case chain of
        Chain c \<Rightarrow>
          Inr \<lparr>gm_chain = c, gm_enrollID = enrollID,
               gm_callback = (\<lambda>getMemberError usr.
                 if truthy getMemberError
                 then (case js_string enrollID of
                         None \<Rightarrow> Resolved (Thrown TypeError)
                       | Some logged \<Rightarrow>
                           Resolved (if truthy_cb cb then call cb [getMemberError] else Silent))
                 else (case usr of
                         Member m \<Rightarrow>
                           Submitted \<lparr>tx_method = QueryTx, tx_member = m,
                                      tx_request = requestBody,
                                      listeners =
                                        [(''complete'', \<lambda>results.
                                            case prop_result results of
                                              Inl e \<Rightarrow> Thrown e
                                            | Inr r \<Rightarrow> call cb [Null, r]),
                                         (''error'', \<lambda>err. call cb [err])]\<rparr>
                       | _ \<Rightarrow> Resolved (Thrown TypeError)))\<rparr>
      | _ \<Rightarrow> Inl TypeError)"

section \<open>The facade CPChaincode\<close>

text \<open>
  The queue \<^verbatim>\<open>async.queue(worker, 1)\<close> of an instance: its concurrency and the tasks
  pushed on it and not yet finished. The worker runs the task with the completion
  callback of the queue.
\<close>

record async_queue =
  q_concurrency :: nat
  q_tasks :: "jsval list"

definition queue_worker :: "('c \<Rightarrow> 'r) \<Rightarrow> 'c \<Rightarrow> 'r" where
  "queue_worker task callback = task callback"

record cp_instance =
  this_chain :: jsval
  this_chaincodeID :: jsdata
  this_queue :: async_queue

text \<open>The constructor \<^verbatim>\<open>function CPChaincode(chain, chaincodeID)\<close>.\<close>

definition CPChaincode :: "jsval \<Rightarrow> jsdata \<Rightarrow> js_error + cp_instance" where
  "CPChaincode chain chaincodeID' =
     (if \<not> (truthy_val chain \<and> truthy chaincodeID')
      then Inl (Error ''Cannot create chaincode helper without both a chain object and the chaincode ID!'')
      else Inr \<lparr>this_chain = chain, this_chaincodeID = chaincodeID',
                this_queue = \<lparr>q_concurrency = 1, q_tasks = []\<rparr>\<rparr>)"

text \<open>
  Each method takes the instance and returns it with what the method did: the call of
  \<^verbatim>\<open>chain.getMember\<close> that it made before returning, or the error it threw.
\<close>

definition createCompany ::
  "cp_instance \<Rightarrow> jsdata \<Rightarrow> jsval \<Rightarrow> cp_instance \<times> (js_error + getMember_call)" where
  "createCompany this enrollID cb =
     (this,
      invoke (this_chain this) enrollID
        \<lparr>chaincodeID = this_chaincodeID this, fcn = ''createAccount'', args = [enrollID],
         attrs = None\<rparr>
        (Closure (\<lambda>err result.
           if truthy err then call (Value cb) [err]
           else (case toString result of
                   Inl e \<Rightarrow> Thrown e
                 | Inr logged \<Rightarrow> call (Value cb) [Null, result]))))"

definition getCompany ::
  "cp_instance \<Rightarrow> jsdata \<Rightarrow> jsdata \<Rightarrow> jsval \<Rightarrow> cp_instance \<times> (js_error + getMember_call)" where
  "getCompany this enrollID company cb =
     (this,
      query (this_chain this) enrollID
        \<lparr>chaincodeID = this_chaincodeID this, fcn = ''GetCompany'', args = [company],
         attrs = None\<rparr>
        (Closure (\<lambda>err company.
           if truthy err then call (Value cb) [err]
           else (case toString company of
                   Inl e \<Rightarrow> Thrown e
                 | Inr logged \<Rightarrow>
                     (case toString company of
                        Inl e \<Rightarrow> Thrown e
                      | Inr text \<Rightarrow> call (Value cb) [Null, text])))))"

definition createPaper ::
  "cp_instance \<Rightarrow> jsdata \<Rightarrow> jsdata \<Rightarrow> jsval \<Rightarrow> cp_instance \<times> (js_error + getMember_call)" where
  "createPaper this enrollID paper cb =
     (this,
      invoke (this_chain this) enrollID
        \<lparr>chaincodeID = this_chaincodeID this, fcn = ''issueCommercialPaper'',
         args = [JSON_stringify paper], attrs = None\<rparr>
        (Closure (\<lambda>err result.
           if truthy err then call (Value cb) [err]
           else (case toString result of
                   Inl e \<Rightarrow> Thrown e
                 | Inr logged \<Rightarrow> call (Value cb) [Null, result]))))"

definition ping ::
  "cp_instance \<Rightarrow> jsdata \<Rightarrow> jsval \<Rightarrow> cp_instance \<times> (js_error + getMember_call)" where
  "ping this enrollID cb =
     (this,
      invoke (this_chain this) enrollID
        \<lparr>chaincodeID = JStr ''5e3be7bd2c42bd0c8d72aaf3d41aaaae382fba4b8c6f6c0ba993df8322d956ca6e20c2ef67cd1e042a83d4725c3b23835ee65243c8d50a13a74679ed9afb8fdb'',
         fcn = ''ping'', args = [JStr ''string''],
         attrs = Some [JStr ''username'', JStr ''role'']\<rparr>
        (Closure (\<lambda>err result.
           if truthy err then call (Value cb) [err]
           else (case toString result of
                   Inl e \<Rightarrow> Thrown e
                 | Inr logged \<Rightarrow> call (Value cb) [Null, result]))))"

definition transferPaper ::
  "cp_instance \<Rightarrow> jsdata \<Rightarrow> jsdata \<Rightarrow> jsval \<Rightarrow> cp_instance \<times> (js_error + getMember_call)" where
  "transferPaper this enrollID paper cb =
     (this,
      invoke (this_chain this) enrollID
        \<lparr>chaincodeID = this_chaincodeID this, fcn = ''transferPaper'',
         args = [JSON_stringify paper], attrs = None\<rparr>
        (Closure (\<lambda>err result.
           if truthy err then call (Value cb) [err]
           else (case toString result of
                   Inl e \<Rightarrow> Thrown e
                 | Inr logged \<Rightarrow> call (Value cb) [Null, result]))))"

definition getPapers ::
  "cp_instance \<Rightarrow> jsdata \<Rightarrow> jsval \<Rightarrow> cp_instance \<times> (js_error + getMember_call)" where
  "getPapers this enrollID cb =
     (this,
      query (this_chain this) enrollID
        \<lparr>chaincodeID = this_chaincodeID this, fcn = ''GetAllCPs'', args = [enrollID],
         attrs = None\<rparr>
        (Closure (\<lambda>err papers.
           if truthy err then call (Value cb) [err]
           else (case toString papers of
                   Inl e \<Rightarrow> Thrown e
                 | Inr text \<Rightarrow> call (Value cb) [Null, text]))))"

section \<open>Reading numbers back\<close>

text \<open>
  The value of a decimal numeral, with an optional minus sign: the reference against
  which the printing of numbers is judged.
\<close>

definition is_digit :: "char \<Rightarrow> bool" where
  "is_digit c = (48 \<le> (of_char c :: nat) \<and> (of_char c :: nat) \<le> 57)"

definition digit_val :: "char \<Rightarrow> nat" where
  "digit_val c = of_char c - 48"

definition read_nat :: "string \<Rightarrow> nat" where
  "read_nat s = foldl (\<lambda>a c. 10 * a + digit_val c) 0 s"

definition read_int :: "string \<Rightarrow> int option" where
  "read_int s =
     (case s of
        [] \<Rightarrow> None
      | c # cs \<Rightarrow>
          if c = CHR ''-''
          then (if cs \<noteq> [] \<and> list_all is_digit cs then Some (- int (read_nat cs)) else None)
          else (if list_all is_digit s then Some (int (read_nat s)) else None))"

section \<open>Reading JSON texts back\<close>

text \<open>
  A reader of JSON texts in compact form, the reference against which
  \<^verbatim>\<open>JSON.stringify\<close> is judged: no white space, numbers that are integers of 32 bits,
  string escapes of code units below 256. It returns \<open>None\<close> on every other text. The
  number given to \<open>read_value\<close> bounds the depth of the calls, and \<open>read_json\<close> gives
  enough for the whole text.
\<close>

definition hex_val :: "char \<Rightarrow> nat option" where
  "hex_val c =
     (if is_digit c then Some (of_char c - 48)
      else if 97 \<le> (of_char c :: nat) \<and> (of_char c :: nat) \<le> 102 then Some (of_char c - 87)
      else if 65 \<le> (of_char c :: nat) \<and> (of_char c :: nat) \<le> 70 then Some (of_char c - 55)
      else None)"

definition unescape :: "char \<Rightarrow> char option" where
  "unescape e =
     (if e = CHR 0x22 then Some (CHR 0x22)
      else if e = CHR 0x5C then Some (CHR 0x5C)
      else if e = CHR ''/'' then Some (CHR ''/'')
      else if e = CHR ''b'' then Some (CHR 0x08)
      else if e = CHR ''f'' then Some (CHR 0x0C)
      else if e = CHR ''n'' then Some (CHR 0x0A)
      else if e = CHR ''r'' then Some (CHR 0x0D)
      else if e = CHR ''t'' then Some (CHR 0x09)
      else None)"

definition with_char :: "char \<Rightarrow> (string \<times> string) option \<Rightarrow> (string \<times> string) option" where
  "with_char c res = map_option (\<lambda>(s, r). (c # s, r)) res"

fun read_chars :: "string \<Rightarrow> (string \<times> string) option" where
  "read_chars [] = None"
| "read_chars (c # cs) =
     (if c = CHR 0x22 then Some ([], cs)
      else if c = CHR 0x5C then
        (case cs of
           [] \<Rightarrow> None
         | e # es \<Rightarrow>
             if e = CHR ''u'' then
               (case es of
                  a # b # h # l # rest \<Rightarrow>
                    if a = CHR ''0'' \<and> b = CHR ''0'' then
                      (case hex_val h of
                         None \<Rightarrow> None
                       | Some x \<Rightarrow>
                           (case hex_val l of
                              None \<Rightarrow> None
                            | Some y \<Rightarrow> with_char (char_of (16 * x + y)) (read_chars rest)))
                    else None
                | _ \<Rightarrow> None)
             else (case unescape e of
                     None \<Rightarrow> None
                   | Some ch \<Rightarrow> with_char ch (read_chars es)))
      else if (of_char c :: nat) < 32 then None
      else with_char c (read_chars cs))"

definition numchar :: "char \<Rightarrow> bool" where
  "numchar c = (is_digit c \<or> c = CHR ''-'')"

definition read_number :: "string \<Rightarrow> (jsdata \<times> string) option" where
  "read_number s =
     (case read_int (takeWhile numchar s) of
        None \<Rightarrow> None
      | Some i \<Rightarrow>
          if - (2 ^ 31) \<le> i \<and> i < 2 ^ 31
          then Some (JNum (word_of_int i), dropWhile numchar s)
          else None)"

fun read_value :: "nat \<Rightarrow> string \<Rightarrow> (jsdata \<times> string) option"
  and read_elems :: "nat \<Rightarrow> string \<Rightarrow> (jsdata list \<times> string) option"
  and read_fields :: "nat \<Rightarrow> string \<Rightarrow> ((string \<times> jsdata) list \<times> string) option" where
  "read_value 0 s = None"
| "read_value (Suc n) s =
     (if s = [] then None
      else if hd s = CHR 0x22 then map_option (\<lambda>(t, r). (JStr t, r)) (read_chars (tl s))
      else if hd s = CHR ''['' then
        (if take 1 (tl s) = '']'' then Some (JArr [], drop 1 (tl s))
         else map_option (\<lambda>(xs, r). (JArr xs, r)) (read_elems n (tl s)))
      else if hd s = CHR ''{'' then
        (if take 1 (tl s) = ''}'' then Some (JObj [], drop 1 (tl s))
         else map_option (\<lambda>(ps, r). (JObj ps, r)) (read_fields n (tl s)))
      else if take 4 s = ''null'' then Some (Null, drop 4 s)
      else if take 4 s = ''true'' then Some (JBool True, drop 4 s)
      else if take 5 s = ''false'' then Some (JBool False, drop 5 s)
      else read_number s)"
| "read_elems 0 s = None"
| "read_elems (Suc n) s =
     (case read_value n s of
        None \<Rightarrow> None
      | Some (v, r) \<Rightarrow>
          if take 1 r = '','' then map_option (\<lambda>(vs, r'). (v # vs, r')) (read_elems n (drop 1 r))
          else if take 1 r = '']'' then Some ([v], drop 1 r)
          else None)"
| "read_fields 0 s = None"
| "read_fields (Suc n) s =
     (if take 1 s \<noteq> [CHR 0x22] then None
      else (case read_chars (drop 1 s) of
              None \<Rightarrow> None
            | Some (k, r) \<Rightarrow>
                if take 1 r \<noteq> '':'' then None
                else (case read_value n (drop 1 r) of
                        None \<Rightarrow> None
                      | Some (v, r') \<Rightarrow>
                          if take 1 r' = '','' then
                            map_option (\<lambda>(ps, r''). ((k, v) # ps, r'')) (read_fields n (drop 1 r'))
                          else if take 1 r' = ''}'' then Some ([(k, v)], drop 1 r')
                          else None)))"

definition read_json :: "string \<Rightarrow> jsdata option" where
  "read_json t =
     (case read_value (2 * length t + 1) t of
        None \<Rightarrow> None
      | Some (v, r) \<Rightarrow> if r = [] then Some v else None)"

text \<open>
  The value that a JSON text of \<open>v\<close> denotes: undefined elements of an array and NaN
  are null in it, properties whose value is undefined are absent from it, and a Buffer is
  the object of its bytes.
\<close>

fun json_value :: "jsdata \<Rightarrow> jsdata" where
  "json_value Undefined = Null"
| "json_value Null = Null"
| "json_value (JBool b) = JBool b"
| "json_value (JNum w) = JNum w"
| "json_value JNaN = Null"
| "json_value (JStr s) = JStr s"
| "json_value (JBuf t) =
     JObj [(''type'', JStr ''Buffer''), (''data'', JArr (map (\<lambda>b. JNum (of_nat b)) (utf8 t)))]"
| "json_value (JArr xs) = JArr (map json_value xs)"
| "json_value (JObj ps) =
     JObj (concat (map (\<lambda>(k, v). if v = Undefined then [] else [(k, json_value v)]) ps))"

text \<open>The text of an array element, and of one property of an object.\<close>

definition elem_text :: "jsdata \<Rightarrow> string" where
  "elem_text v = (case json_text v of None \<Rightarrow> ''null'' | Some t \<Rightarrow> t)"

definition field_text :: "string \<times> jsdata \<Rightarrow> string" where
  "field_text kv = quote (fst kv) @ '':'' @ elem_text (snd kv)"

text \<open>The values that a JSON text denotes, and the texts after which a number ends.\<close>

fun jsonish :: "jsdata \<Rightarrow> bool" where
  "jsonish Undefined = False"
| "jsonish Null = True"
| "jsonish (JBool b) = True"
| "jsonish (JNum w) = True"
| "jsonish JNaN = False"
| "jsonish (JStr s) = True"
| "jsonish (JBuf t) = False"
| "jsonish (JArr xs) = list_all jsonish xs"
| "jsonish (JObj ps) = list_all (\<lambda>kv. jsonish (snd kv)) ps"

definition delim :: "string \<Rightarrow> bool" where
  "delim rest = (rest = [] \<or> \<not> numchar (hd rest))"

section \<open>Properties\<close>

subsection \<open>Texts read back\<close>

lemma digit_val_digit: "d < 10 \<Longrightarrow> digit_val (digit d) = d"
  by (simp add: digit_val_def digit_def)

lemma is_digit_digit: "d < 10 \<Longrightarrow> is_digit (digit d)"
  by (simp add: is_digit_def digit_def)

lemma read_nat_snoc: "read_nat (s @ [c]) = 10 * read_nat s + digit_val c"
  by (simp add: read_nat_def)

lemma read_nat_show_nat: "read_nat (show_nat n) = n"
proof (induction n rule: show_nat.induct)
  case (1 n)
  show ?case
  proof (cases "n < 10")
    case True
    then show ?thesis
      by (subst show_nat.simps) (simp add: read_nat_def digit_val_digit)
  next
    case False
    with 1 show ?thesis
      by (subst show_nat.simps) (simp add: read_nat_snoc digit_val_digit)
  qed
qed

lemma show_nat_digits: "list_all is_digit (show_nat n) \<and> show_nat n \<noteq> []"
proof (induction n rule: show_nat.induct)
  case (1 n)
  show ?case
  proof (cases "n < 10")
    case True
    then show ?thesis
      by (subst (1 2) show_nat.simps) (simp add: is_digit_digit)
  next
    case False
    with 1 show ?thesis
      by (subst (1 2) show_nat.simps) (simp add: is_digit_digit)
  qed
qed

lemma minus_not_digit: "\<not> is_digit CHR ''-''"
  by (simp add: is_digit_def)

lemma read_int_show_int: "read_int (show_int i) = Some i"
proof (cases "i < 0")
  case True
  then show ?thesis
    using show_nat_digits [of "nat (- i)"]
    by (simp add: read_int_def show_int_def read_nat_show_nat)
next
  case False
  obtain c cs where s: "show_nat (nat i) = c # cs"
    using show_nat_digits [of "nat i"] by (cases "show_nat (nat i)") auto
  have "is_digit c" using show_nat_digits [of "nat i"] s by simp
  then have "c \<noteq> CHR ''-''" using minus_not_digit by auto
  with False s show ?thesis
    using show_nat_digits [of "nat i"] read_nat_show_nat [of "nat i"]
    by (simp add: read_int_def show_int_def)
qed

lemma hex_val_hex_digit: "d < 16 \<Longrightarrow> hex_val (hex_digit d) = Some d"
  by (auto simp add: hex_val_def hex_digit_def is_digit_def)

lemma char_of_nibbles: "char_of (16 * ((of_char c :: nat) div 16) + (of_char c :: nat) mod 16) = c"
  by simp

lemma read_chars_escape: "read_chars (escape_char c @ cs) = with_char c (read_chars cs)"
proof (cases "(of_char c :: nat) < 32")
  case True
  then have hi: "(of_char c :: nat) div 16 < 16" and lo: "(of_char c :: nat) mod 16 < 16"
    by auto
  show ?thesis
    using True hex_val_hex_digit [OF hi] hex_val_hex_digit [OF lo] char_of_nibbles [of c]
    by (auto simp add: escape_char_def unescape_def)
next
  case False
  then show ?thesis
    by (auto simp add: escape_char_def unescape_def)
qed

lemma read_chars_body:
  "read_chars (concat (map escape_char s) @ CHR 0x22 # rest) = Some (s, rest)"
  by (induction s) (simp_all add: read_chars_escape with_char_def)

lemma read_chars_quote: "read_chars (tl (quote s) @ rest) = Some (s, rest)"
  by (simp add: quote_def read_chars_body)

lemma span_all:
  "list_all P xs \<Longrightarrow> rest = [] \<or> \<not> P (hd rest) \<Longrightarrow>
     takeWhile P (xs @ rest) = xs \<and> dropWhile P (xs @ rest) = rest"
proof (induction xs)
  case Nil
  then show ?case by (cases rest) auto
next
  case (Cons x xs)
  then show ?case by auto
qed

lemma show_int_numchars: "list_all numchar (show_int i) \<and> show_int i \<noteq> []"
proof -
  have "list_all numchar (show_nat n)" for n
    using show_nat_digits [of n] by (simp add: list_all_iff numchar_def)
  then show ?thesis
    using show_nat_digits by (simp add: show_int_def numchar_def)
qed

lemma read_number_show_int:
  assumes "delim rest"
  shows "read_number (show_int (sint (w :: 32 word)) @ rest) = Some (JNum w, rest)"
proof -
  have span: "takeWhile numchar (show_int (sint w) @ rest) = show_int (sint w)
      \<and> dropWhile numchar (show_int (sint w) @ rest) = rest"
    using show_int_numchars assms by (intro span_all) (auto simp add: delim_def)
  have lo: "- (2 ^ 31) \<le> sint w" using sint_ge [of w] by simp
  have hi: "sint w < 2 ^ 31" using sint_lt [of w] by simp
  show ?thesis
    using span lo hi by (simp add: read_number_def read_int_show_int)
qed

lemma read_value_number:
  assumes "s \<noteq> []" and "numchar (hd s)"
  shows "read_value (Suc n) s = read_number s"
proof -
  obtain c cs where s: "s = c # cs" using assms(1) by (cases s) auto
  with assms(2) have c: "numchar c" by simp
  then have "c \<noteq> CHR 0x22" "c \<noteq> CHR ''[''" "c \<noteq> CHR ''{''" "c \<noteq> CHR ''n''"
      "c \<noteq> CHR ''t''" "c \<noteq> CHR ''f''"
    by (auto simp add: numchar_def is_digit_def)
  with s show ?thesis by simp
qed

lemma json_text_Some: "v \<noteq> Undefined \<Longrightarrow> json_text v = Some (elem_text v)"
  by (cases v) (simp_all add: elem_text_def)

lemma jsonish_defined: "jsonish v \<Longrightarrow> v \<noteq> Undefined"
  by auto

lemma elem_text_Arr: "elem_text (JArr xs) = CHR ''['' # join '','' (map elem_text xs) @ '']''"
proof -
  have "(\<lambda>x. case json_text x of None \<Rightarrow> ''null'' | Some t \<Rightarrow> t) = elem_text"
    by (rule ext) (simp add: elem_text_def)
  then show ?thesis by (simp add: elem_text_def)
qed

lemma fields_jsonish:
  "list_all (\<lambda>kv. jsonish (snd kv)) ps \<Longrightarrow>
     concat (map (\<lambda>(k, v). case json_text v of None \<Rightarrow> [] | Some t \<Rightarrow> [quote k @ '':'' @ t]) ps)
       = map field_text ps"
  by (induction ps) (auto simp add: field_text_def json_text_Some jsonish_defined)

lemma elem_text_Obj:
  "list_all (\<lambda>kv. jsonish (snd kv)) ps \<Longrightarrow>
     elem_text (JObj ps) = CHR ''{'' # join '','' (map field_text ps) @ ''}''"
  by (simp add: elem_text_def fields_jsonish)

lemma delim_marks:
  "delim (CHR '','' # r)" "delim (CHR '']'' # r)" "delim (CHR ''}'' # r)" "delim []"
  by (simp_all add: delim_def numchar_def is_digit_def)

lemma first_char:
  assumes "jsonish v"
  shows "elem_text v \<noteq> [] \<and> hd (elem_text v) \<noteq> CHR '']'' \<and> hd (elem_text v) \<noteq> CHR ''}''"
proof (cases v)
  case (JNum w)
  obtain c cs where s: "show_int (sint w) = c # cs"
    using show_int_numchars [of "sint w"] by (cases "show_int (sint w)") auto
  then have "numchar c" using show_int_numchars [of "sint w"] by simp
  then have "c \<noteq> CHR '']''" "c \<noteq> CHR ''}''" by (auto simp add: numchar_def is_digit_def)
  with JNum s show ?thesis by (simp add: elem_text_def)
qed (use assms in \<open>auto simp add: elem_text_def quote_def\<close>)

lemma join_first: "ts \<noteq> [] \<Longrightarrow> hd ts \<noteq> [] \<Longrightarrow> join sep ts \<noteq> [] \<and> hd (join sep ts) = hd (hd ts)"
  by (induction sep ts rule: join.induct) auto

lemma read_elems_join:
  assumes "xs \<noteq> []"
    and "\<forall>x\<in>set xs. \<forall>n rest. delim rest \<longrightarrow> 2 * length (elem_text x) + 1 \<le> n \<longrightarrow>
            read_value n (elem_text x @ rest) = Some (x, rest)"
    and "2 * length (join '','' (map elem_text xs)) + 2 \<le> m"
  shows "read_elems m (join '','' (map elem_text xs) @ CHR '']'' # rest) = Some (xs, rest)"
  using assms
proof (induction xs arbitrary: m rule: list_nonempty_induct)
  case (single x)
  obtain m' where m: "m = Suc m'" using single by (cases m) auto
  have "read_value m' (elem_text x @ CHR '']'' # rest) = Some (x, CHR '']'' # rest)"
    using single m delim_marks by simp
  with m show ?case by simp
next
  case (cons x xs)
  obtain y ys where xs: "xs = y # ys" using cons by (cases xs) auto
  obtain m' where m: "m = Suc m'" using cons by (cases m) auto
  have len: "2 * length (elem_text x) + 1 \<le> m'"
      "2 * length (join '','' (map elem_text xs)) + 2 \<le> m'"
    using cons.prems(2) m xs by simp_all
  have head: "read_value m' (elem_text x @ CHR '','' # join '','' (map elem_text xs) @ CHR '']'' # rest)
      = Some (x, CHR '','' # join '','' (map elem_text xs) @ CHR '']'' # rest)"
    using cons.prems(1) len(1) delim_marks by simp
  have tail: "read_elems m' (join '','' (map elem_text xs) @ CHR '']'' # rest) = Some (xs, rest)"
    using cons.IH [of m'] cons.prems(1) len(2) by simp
  show ?case using m xs head tail by simp
qed

lemma read_field_step:
  assumes "read_value n (elem_text v @ r) = Some (v, r)"
  shows "read_fields (Suc n) (field_text (k, v) @ r) =
           (if take 1 r = '','' then
              map_option (\<lambda>(ps, r''). ((k, v) # ps, r'')) (read_fields n (drop 1 r))
            else if take 1 r = ''}'' then Some ([(k, v)], drop 1 r)
            else None)"
  using assms by (simp add: field_text_def quote_def read_chars_body)

lemma read_fields_join:
  assumes "ps \<noteq> []"
    and "\<forall>kv\<in>set ps. \<forall>n rest. delim rest \<longrightarrow> 2 * length (elem_text (snd kv)) + 1 \<le> n \<longrightarrow>
            read_value n (elem_text (snd kv) @ rest) = Some (snd kv, rest)"
    and "2 * length (join '','' (map field_text ps)) + 2 \<le> m"
  shows "read_fields m (join '','' (map field_text ps) @ CHR ''}'' # rest) = Some (ps, rest)"
  using assms
proof (induction ps arbitrary: m rule: list_nonempty_induct)
  case (single kv)
  obtain k v where kv: "kv = (k, v)" by (cases kv)
  obtain m' where m: "m = Suc m'" using single by (cases m) auto
  have "2 * length (elem_text v) + 1 \<le> m'"
    using single(2) m kv by (simp add: field_text_def)
  then have "read_value m' (elem_text v @ CHR ''}'' # rest) = Some (v, CHR ''}'' # rest)"
    using single(1) kv delim_marks by simp
  from read_field_step [OF this, of k] m kv show ?case by simp
next
  case (cons kv ps)
  obtain k v where kv: "kv = (k, v)" by (cases kv)
  obtain q qs where ps: "ps = q # qs" using cons by (cases ps) auto
  obtain m' where m: "m = Suc m'" using cons by (cases m) auto
  have fl: "length (field_text (k, v)) = length (quote k) + 1 + length (elem_text v)"
    by (simp add: field_text_def)
  have len: "2 * length (elem_text v) + 1 \<le> m'"
      "2 * length (join '','' (map field_text ps)) + 2 \<le> m'"
    using cons.prems(2) m ps kv fl by simp_all
  have head: "read_value m' (elem_text v @ CHR '','' # join '','' (map field_text ps) @ CHR ''}'' # rest)
      = Some (v, CHR '','' # join '','' (map field_text ps) @ CHR ''}'' # rest)"
    using cons.prems(1) len(1) kv delim_marks by simp
  have tail: "read_fields m' (join '','' (map field_text ps) @ CHR ''}'' # rest) = Some (ps, rest)"
    using cons.IH [of m'] cons.prems(1) len(2) by simp
  from read_field_step [OF head, of k] m ps kv tail show ?case by simp
qed

lemma read_value_text:
  "jsonish v \<Longrightarrow> delim rest \<Longrightarrow> 2 * length (elem_text v) + 1 \<le> n \<Longrightarrow>
     read_value n (elem_text v @ rest) = Some (v, rest)"
proof (induction v arbitrary: n rest)
  case Undefined
  then show ?case by simp
next
  case Null
  then obtain n' where "n = Suc n'" by (cases n) auto
  then show ?case by (simp add: elem_text_def)
next
  case (JBool b)
  then obtain n' where "n = Suc n'" by (cases n) auto
  then show ?case by (cases b) (simp_all add: elem_text_def)
next
  case (JNum w)
  then obtain n' where n: "n = Suc n'" by (cases n) auto
  obtain c cs where s: "show_int (sint w) = c # cs"
    using show_int_numchars [of "sint w"] by (cases "show_int (sint w)") auto
  then have "numchar c" using show_int_numchars [of "sint w"] by simp
  with s have "read_value (Suc n') (show_int (sint w) @ rest) = read_number (show_int (sint w) @ rest)"
    by (intro read_value_number) simp_all
  with n JNum(2) show ?case
    by (simp add: elem_text_def read_number_show_int)
next
  case JNaN
  then show ?case by simp
next
  case (JStr s)
  then obtain n' where "n = Suc n'" by (cases n) auto
  then show ?case by (simp add: elem_text_def quote_def read_chars_body)
next
  case (JBuf t)
  then show ?case by simp
next
  case (JArr xs)
  obtain n' where n: "n = Suc n'" using JArr.prems by (cases n) auto
  show ?case
  proof (cases "xs = []")
    case True
    with n show ?thesis by (simp add: elem_text_Arr)
  next
    case False
    have elems: "\<forall>x\<in>set xs. \<forall>n rest. delim rest \<longrightarrow> 2 * length (elem_text x) + 1 \<le> n \<longrightarrow>
        read_value n (elem_text x @ rest) = Some (x, rest)"
      using JArr.IH JArr.prems(1) by (auto simp add: list_all_iff)
    have len: "2 * length (join '','' (map elem_text xs)) + 2 \<le> n'"
      using JArr.prems(3) n by (simp add: elem_text_Arr)
    have read: "read_elems n' (join '','' (map elem_text xs) @ CHR '']'' # rest) = Some (xs, rest)"
      using read_elems_join [OF False elems len] .
    have "jsonish (hd xs)" using False JArr.prems(1) by (cases xs) auto
    then have "hd (map elem_text xs) \<noteq> []" "hd (hd (map elem_text xs)) \<noteq> CHR '']''"
      using first_char [of "hd xs"] False by (simp_all add: hd_map)
    then have "join '','' (map elem_text xs) \<noteq> []"
        "hd (join '','' (map elem_text xs)) \<noteq> CHR '']''"
      using join_first [of "map elem_text xs" "'',''"] False by simp_all
    then obtain c cs where j: "join '','' (map elem_text xs) = c # cs" and c: "c \<noteq> CHR '']''"
      by (cases "join '','' (map elem_text xs)") auto
    show ?thesis
      using n read j c by (simp add: elem_text_Arr)
  qed
next
  case (JObj ps)
  obtain n' where n: "n = Suc n'" using JObj.prems by (cases n) auto
  have fields: "list_all (\<lambda>kv. jsonish (snd kv)) ps" using JObj.prems(1) by simp
  show ?case
  proof (cases "ps = []")
    case True
    with n show ?thesis by (simp add: elem_text_def)
  next
    case False
    have vals: "\<forall>kv\<in>set ps. \<forall>n rest. delim rest \<longrightarrow> 2 * length (elem_text (snd kv)) + 1 \<le> n \<longrightarrow>
        read_value n (elem_text (snd kv) @ rest) = Some (snd kv, rest)"
    proof (intro ballI allI impI)
      fix kv n rest
      assume kv: "kv \<in> set ps" and d: "delim rest" and l: "2 * length (elem_text (snd kv)) + 1 \<le> n"
      have "snd kv \<in> Basic_BNFs.snds kv" by (cases kv) simp
      moreover have "jsonish (snd kv)" using fields kv by (simp add: list_all_iff)
      ultimately show "read_value n (elem_text (snd kv) @ rest) = Some (snd kv, rest)"
        using JObj.IH [OF kv] d l by blast
    qed
    have len: "2 * length (join '','' (map field_text ps)) + 2 \<le> n'"
      using JObj.prems(3) n fields by (simp add: elem_text_Obj)
    have read: "read_fields n' (join '','' (map field_text ps) @ CHR ''}'' # rest) = Some (ps, rest)"
      using read_fields_join [OF False vals len] .
    have "hd (map field_text ps) \<noteq> []" "hd (hd (map field_text ps)) \<noteq> CHR ''}''"
      using False by (simp_all add: hd_map field_text_def quote_def)
    then have "join '','' (map field_text ps) \<noteq> []"
        "hd (join '','' (map field_text ps)) \<noteq> CHR ''}''"
      using join_first [of "map field_text ps" "'',''"] False by simp_all
    then obtain c cs where j: "join '','' (map field_text ps) = c # cs" and c: "c \<noteq> CHR ''}''"
      by (cases "join '','' (map field_text ps)") auto
    show ?thesis
      using n read j c fields by (simp add: elem_text_Obj)
  qed
qed

lemma sint_byte: "b < 256 \<Longrightarrow> sint (of_nat b :: 32 word) = int b"
  by (simp add: signed_of_nat signed_take_bit_int_eq_self)

lemma utf8_bytes: "b \<in> set (utf8 t) \<Longrightarrow> b < 256"
proof -
  have c: "(of_char c :: nat) < 256" for c :: char
    by (rule nat_of_char_less_256)
  have "(of_char c :: nat) div 64 \<le> 255 div 64" for c :: char
    using c [of c] by (intro div_le_mono) arith
  then have "192 + (of_char c :: nat) div 64 < 256" "128 + (of_char c :: nat) mod 64 < 256" for c :: char
    by (simp_all add: le_less_trans [of _ 3])
  then show "b \<in> set (utf8 t) \<Longrightarrow> b < 256"
    using c by (auto simp add: utf8_def split: if_splits)
qed

lemma show_byte: "b < 256 \<Longrightarrow> show_int (sint (of_nat b :: 32 word)) = show_nat b"
  by (simp add: sint_byte show_int_def)

lemma bytes_text:
  "map ((\<lambda>x. case json_text x of None \<Rightarrow> ''null'' | Some t \<Rightarrow> t) \<circ> (\<lambda>b. JNum (of_nat b)))
       (utf8 t) = map show_nat (utf8 t)"
  by (rule map_cong) (simp_all add: show_byte utf8_bytes)

lemma kept_jsonish:
  "\<forall>kv\<in>set ps. jsonish (json_value (snd kv)) \<Longrightarrow>
     list_all (\<lambda>kv. jsonish (snd kv))
       (concat (map (\<lambda>(k, v). if v = Undefined then [] else [(k, json_value v)]) ps))"
  by (induction ps) auto

lemma kept_texts:
  "\<forall>kv\<in>set ps. elem_text (json_value (snd kv)) = elem_text (snd kv) \<Longrightarrow>
     map field_text (concat (map (\<lambda>(k, v). if v = Undefined then [] else [(k, json_value v)]) ps))
       = concat (map (\<lambda>(k, v). case json_text v of None \<Rightarrow> []
                                  | Some t \<Rightarrow> [quote k @ '':'' @ t]) ps)"
  by (induction ps) (auto simp add: field_text_def json_text_Some)

lemma json_value_text: "elem_text (json_value v) = elem_text v \<and> jsonish (json_value v)"
proof (induction v)
  case (JBuf t)
  have "jsonish (json_value (JBuf t))"
    by (simp add: list_all_iff)
  moreover have "elem_text (json_value (JBuf t)) = elem_text (JBuf t)"
    by (simp add: elem_text_def bytes_text)
  ultimately show ?case by simp
next
  case (JArr xs)
  then have "map (elem_text \<circ> json_value) xs = map elem_text xs"
    by (intro map_cong) simp_all
  then have texts: "join '','' (map (elem_text \<circ> json_value) xs) = join '','' (map elem_text xs)"
    by (simp only:)
  have "list_all jsonish (map json_value xs)"
    using JArr by (simp add: list_all_iff)
  with texts show ?case by (simp add: elem_text_Arr)
next
  case (JObj ps)
  have vals: "elem_text (json_value (snd kv)) = elem_text (snd kv) \<and> jsonish (json_value (snd kv))"
    if "kv \<in> set ps" for kv
  proof -
    have "snd kv \<in> Basic_BNFs.snds kv" by (cases kv) simp
    with JObj that show ?thesis by blast
  qed
  define kept where "kept = concat (map (\<lambda>(k, v). if v = Undefined then [] else [(k, json_value v)]) ps)"
  have ish: "list_all (\<lambda>kv. jsonish (snd kv)) kept"
    using vals unfolding kept_def by (intro kept_jsonish) simp
  have texts: "map field_text kept
      = concat (map (\<lambda>(k, v). case json_text v of None \<Rightarrow> [] | Some t \<Rightarrow> [quote k @ '':'' @ t]) ps)"
    using vals unfolding kept_def by (intro kept_texts) simp
  have "elem_text (JObj kept) = elem_text (JObj ps)"
    using texts by (simp add: elem_text_Obj [OF ish]) (simp add: elem_text_def)
  with ish show ?case by (simp add: kept_def)
qed (simp_all add: elem_text_def)

lemma json_round_trip:
  assumes "json_text v = Some t"
  shows "read_json t = Some (json_value v)"
proof -
  have t: "t = elem_text v" using assms by (simp add: elem_text_def)
  have "read_value (2 * length t + 1) (elem_text (json_value v) @ []) = Some (json_value v, [])"
    using json_value_text [of v] t delim_marks(4)
    by (intro read_value_text) simp_all
  then show ?thesis
    using json_value_text [of v] t by (simp add: read_json_def)
qed

subsection \<open>Shared facts\<close>



lemma toString_ok: "\<not> nullish r \<Longrightarrow> js_string r = Some text \<Longrightarrow> toString r = Inr (JStr text)"
  by (simp add: toString_def)

lemma prop_result_field: "map_of ps ''result'' = Some r \<Longrightarrow> prop_result (JObj ps) = Inr r"
  by simp

lemmas facade_defs =
  createCompany_def getCompany_def createPaper_def ping_def transferPaper_def getPapers_def

subsection \<open>The queue and the facade\<close>

text \<open>
  C1, as the code has it: an instance is constructed with an empty queue of concurrency 1,
  and no facade operation (createCompany, getCompany, createPaper, ping, transferPaper,
  getPapers) pushes anything on it or changes the instance: on an instance whose chain is
  a chain object, each operation has called \<^verbatim>\<open>chain.getMember\<close> with its enrollID when
  it returns.
\<close>

theorem facade_bypasses_queue:
  "fst (createCompany this e cb) = this \<and> fst (getCompany this e company cb) = this
   \<and> fst (createPaper this e paper cb) = this \<and> fst (ping this e cb) = this
   \<and> fst (transferPaper this e paper cb) = this \<and> fst (getPapers this e cb) = this
   \<and> (this_chain this = Chain c \<longrightarrow>
        (\<exists>gm. snd (createCompany this e cb) = Inr gm \<and> gm_chain gm = c \<and> gm_enrollID gm = e)
      \<and> (\<exists>gm. snd (getCompany this e company cb) = Inr gm \<and> gm_chain gm = c \<and> gm_enrollID gm = e)
      \<and> (\<exists>gm. snd (createPaper this e paper cb) = Inr gm \<and> gm_chain gm = c \<and> gm_enrollID gm = e)
      \<and> (\<exists>gm. snd (ping this e cb) = Inr gm \<and> gm_chain gm = c \<and> gm_enrollID gm = e)
      \<and> (\<exists>gm. snd (transferPaper this e paper cb) = Inr gm \<and> gm_chain gm = c \<and> gm_enrollID gm = e)
      \<and> (\<exists>gm. snd (getPapers this e cb) = Inr gm \<and> gm_chain gm = c \<and> gm_enrollID gm = e))
   \<and> (CPChaincode chain cid = Inr this \<longrightarrow> this_queue this = \<lparr>q_concurrency = 1, q_tasks = []\<rparr>)"
  by (auto simp add: facade_defs invoke_def query_def CPChaincode_def split: if_splits)

theorem facade_bypasses_queue_witness:
  "this_queue (fst (getPapers (projr (CPChaincode (Chain 0) (JStr ''cp''))) (JStr ''bob'') (Fn 2)))
     = \<lparr>q_concurrency = 1, q_tasks = []\<rparr>
   \<and> gm_enrollID (projr (snd (getPapers (projr (CPChaincode (Chain 0) (JStr ''cp''))) (JStr ''bob'') (Fn 2))))
     = JStr ''bob''"
  using facade_bypasses_queue [of "projr (CPChaincode (Chain 0) (JStr ''cp''))" "JStr ''bob''" "Fn 2"
      Undefined Undefined 0 "Chain 0" "JStr ''cp''"]
  by (auto simp add: CPChaincode_def)

text \<open>
  C1 as stated fails: createCompany for alice and then getPapers for bob, on a fresh
  instance and with no answer of the client in between, have both called
  \<^verbatim>\<open>chain.getMember\<close>, and the queue holds no task after either.
\<close>

theorem facade_enqueue_counterexample:
  "q_tasks (this_queue (fst (createCompany (projr (CPChaincode (Chain 0) (JStr ''cp'')))
                              (JStr ''alice'') (Fn 1)))) = []
   \<and> \<not> isl (snd (createCompany (projr (CPChaincode (Chain 0) (JStr ''cp''))) (JStr ''alice'') (Fn 1)))
   \<and> gm_enrollID (projr (snd (createCompany (projr (CPChaincode (Chain 0) (JStr ''cp'')))
                              (JStr ''alice'') (Fn 1)))) = JStr ''alice''
   \<and> q_tasks (this_queue (fst (getPapers
        (fst (createCompany (projr (CPChaincode (Chain 0) (JStr ''cp''))) (JStr ''alice'') (Fn 1)))
        (JStr ''bob'') (Fn 2)))) = []
   \<and> \<not> isl (snd (getPapers
        (fst (createCompany (projr (CPChaincode (Chain 0) (JStr ''cp''))) (JStr ''alice'') (Fn 1)))
        (JStr ''bob'') (Fn 2)))
   \<and> gm_enrollID (projr (snd (getPapers
        (fst (createCompany (projr (CPChaincode (Chain 0) (JStr ''cp''))) (JStr ''alice'') (Fn 1)))
        (JStr ''bob'') (Fn 2)))) = JStr ''bob''"
  by (simp add: CPChaincode_def createCompany_def getPapers_def invoke_def query_def)

subsection \<open>Terminal events of an invoke\<close>

text \<open>
  C2, as the code has it: once the identity is resolved, every \<^verbatim>\<open>completed\<close>,
  \<^verbatim>\<open>submitted\<close> or \<^verbatim>\<open>error\<close> event that the emitter fires calls the caller's function
  once, in the order fired, with the error alone for \<^verbatim>\<open>error\<close> and with null and the
  results otherwise: no event is ignored.
\<close>

theorem invoke_every_event_calls_back:
  assumes "\<not> truthy getMemberError"
    and "\<forall>ev \<in> set evs. fst ev \<in> {''completed'', ''submitted'', ''error''}"
  shows "\<exists>gm tx. invoke (Chain c) enrollID req (Value (Fn k)) = Inr gm
           \<and> gm_callback gm getMemberError (Member m) = Submitted tx
           \<and> deliver tx evs =
               map (\<lambda>ev. Invoked k (if fst ev = ''error'' then [snd ev] else [Null, snd ev])) evs"
  using assms
proof (induction evs)
  case Nil
  then show ?case by (simp add: invoke_def)
next
  case (Cons ev evs)
  obtain name payload where ev: "ev = (name, payload)" by (cases ev)
  from Cons ev show ?case
    by (auto simp add: invoke_def emit_def)
qed

theorem invoke_every_event_calls_back_witness:
  "deliver (res_tx (gm_callback
       (projr (invoke (Chain 0) (JStr ''alice'')
                 \<lparr>chaincodeID = JStr ''cp'', fcn = ''ping'', args = [], attrs = None\<rparr> (Value (Fn 1))))
       Null (Member 2)))
     [(''submitted'', JStr ''tx1''), (''completed'', JStr ''ok''), (''error'', JStr ''late'')]
   = [Invoked 1 [Null, JStr ''tx1''], Invoked 1 [Null, JStr ''ok''], Invoked 1 [JStr ''late'']]"
  using invoke_every_event_calls_back [of Null
      "[(''submitted'', JStr ''tx1''), (''completed'', JStr ''ok''), (''error'', JStr ''late'')]"
      0 "JStr ''alice''" "\<lparr>chaincodeID = JStr ''cp'', fcn = ''ping'', args = [], attrs = None\<rparr>" 1 2]
  by auto

text \<open>
  C2 as stated fails: when the emitter fires \<^verbatim>\<open>error\<close> and then \<^verbatim>\<open>completed\<close>, the
  caller's function is called twice, with the error and then with null and the results,
  through \<^verbatim>\<open>invoke\<close> alone and through createCompany.
\<close>

theorem error_then_completed_counterexample:
  "deliver (res_tx (gm_callback
       (projr (invoke (Chain 0) (JStr ''alice'')
                 \<lparr>chaincodeID = JStr ''cp'', fcn = ''createAccount'', args = [JStr ''alice''],
                  attrs = None\<rparr> (Value (Fn 1))))
       Null (Member 2)))
     [(''error'', JStr ''boom''), (''completed'', JStr ''ok'')]
   = [Invoked 1 [JStr ''boom''], Invoked 1 [Null, JStr ''ok'']]
   \<and> deliver (res_tx (gm_callback
       (projr (snd (createCompany (projr (CPChaincode (Chain 0) (JStr ''cp''))) (JStr ''alice'') (Fn 1))))
       Null (Member 2)))
     [(''error'', JStr ''boom''), (''completed'', JStr ''ok'')]
   = [Invoked 1 [JStr ''boom''], Invoked 1 [Null, JStr ''ok'']]"
  by (simp add: CPChaincode_def createCompany_def invoke_def emit_def arg_def toString_def)

subsection \<open>Results handed to the caller\<close>

text \<open>
  C3, as the code has it: on an instance whose chain is a chain object, with the identity
  resolved and a result that is neither null nor undefined and that \<^verbatim>\<open>toString()\<close>
  converts to the text \<open>text\<close>, getCompany and getPapers hand the caller that text of
  \<^verbatim>\<open>results.result\<close>, a string (the decoded text of a Buffer, a string as it is), and
  createCompany, createPaper, transferPaper and ping hand the caller the result of the
  event as it is.
\<close>

theorem results_as_delivered:
  assumes "this_chain this = Chain c" and "\<not> truthy e"
    and "map_of ps ''result'' = Some r" and "\<not> nullish r" and "js_string r = Some text"
  shows "(\<exists>gm tx. snd (getCompany this enrollID company (Fn k)) = Inr gm
            \<and> gm_callback gm e (Member m) = Submitted tx
            \<and> emit tx ''complete'' (JObj ps) = Invoked k [Null, JStr text])
       \<and> (\<exists>gm tx. snd (getPapers this enrollID (Fn k)) = Inr gm
            \<and> gm_callback gm e (Member m) = Submitted tx
            \<and> emit tx ''complete'' (JObj ps) = Invoked k [Null, JStr text])
       \<and> (r = JBuf t \<longrightarrow> text = t)
       \<and> (r = JStr s \<longrightarrow> text = s)
       \<and> (\<exists>gm tx. snd (createCompany this enrollID (Fn k)) = Inr gm
            \<and> gm_callback gm e (Member m) = Submitted tx
            \<and> emit tx ''completed'' r = Invoked k [Null, r]
            \<and> emit tx ''submitted'' r = Invoked k [Null, r])
       \<and> (\<exists>gm tx. snd (createPaper this enrollID paper (Fn k)) = Inr gm
            \<and> gm_callback gm e (Member m) = Submitted tx
            \<and> emit tx ''completed'' r = Invoked k [Null, r]
            \<and> emit tx ''submitted'' r = Invoked k [Null, r])
       \<and> (\<exists>gm tx. snd (transferPaper this enrollID paper (Fn k)) = Inr gm
            \<and> gm_callback gm e (Member m) = Submitted tx
            \<and> emit tx ''completed'' r = Invoked k [Null, r]
            \<and> emit tx ''submitted'' r = Invoked k [Null, r])
       \<and> (\<exists>gm tx. snd (ping this enrollID (Fn k)) = Inr gm
            \<and> gm_callback gm e (Member m) = Submitted tx
            \<and> emit tx ''completed'' r = Invoked k [Null, r]
            \<and> emit tx ''submitted'' r = Invoked k [Null, r])"
proof -
  have conv: "toString r = Inr (JStr text)"
    using assms(4,5) by (rule toString_ok)
  have field: "prop_result (JObj ps) = Inr r"
    using assms(3) by (rule prop_result_field)
  have pins: "(r = JBuf t \<longrightarrow> text = t) \<and> (r = JStr s \<longrightarrow> text = s)"
    using assms(5) by auto
  show ?thesis
    using assms(1,2) conv field pins
    by (simp add: facade_defs invoke_def query_def emit_def arg_def)
qed

theorem results_as_delivered_witness:
  "emit (res_tx (gm_callback
       (projr (snd (getCompany (projr (CPChaincode (Chain 0) (JStr ''cp''))) (JStr ''alice'')
                      (JStr ''Acme'') (Fn 1))))
       Null (Member 2)))
     ''complete'' (JObj [(''result'', JBuf ''Acme Inc'')])
   = Invoked 1 [Null, JStr ''Acme Inc'']
   \<and> emit (res_tx (gm_callback
       (projr (snd (ping (projr (CPChaincode (Chain 0) (JStr ''cp''))) (JStr ''alice'') (Fn 1))))
       Null (Member 2)))
     ''submitted'' (JBuf ''Acme Inc'')
   = Invoked 1 [Null, JBuf ''Acme Inc'']"
  using results_as_delivered [of "projr (CPChaincode (Chain 0) (JStr ''cp''))" 0 Null
      "[(''result'', JBuf ''Acme Inc'')]" "JBuf ''Acme Inc''" "''Acme Inc''"
      "JStr ''alice''" "JStr ''Acme''" 1 2 "''Acme Inc''" "[]" Undefined]
  by (auto simp add: CPChaincode_def)

text \<open>
  C3 as stated fails: createCompany hands the caller the Buffer of a \<^verbatim>\<open>completed\<close> event
  as a Buffer, not as text.
\<close>

theorem invoke_result_not_text_counterexample:
  "emit (res_tx (gm_callback
       (projr (snd (createCompany (projr (CPChaincode (Chain 0) (JStr ''cp''))) (JStr ''alice'') (Fn 1))))
       Null (Member 2)))
     ''completed'' (JBuf ''ok'')
   = Invoked 1 [Null, JBuf ''ok'']"
  by (simp add: CPChaincode_def createCompany_def invoke_def emit_def arg_def toString_def)

subsection \<open>The requests of the facade\<close>

text \<open>
  C7: on an instance constructed with a chain object and the chaincode ID \<open>cid\<close>,
  createCompany(enrollID) calls \<^verbatim>\<open>chain.getMember\<close> with enrollID and, once the identity is
  resolved, invokes the request with chaincodeID \<open>cid\<close>, function name createAccount and
  the argument list [enrollID].
\<close>

theorem createCompany_request:
  assumes "CPChaincode (Chain c) cid = Inr this" and "\<not> truthy getMemberError"
  shows "\<exists>gm tx. snd (createCompany this enrollID cb) = Inr gm
           \<and> gm_chain gm = c \<and> gm_enrollID gm = enrollID
           \<and> gm_callback gm getMemberError (Member m) = Submitted tx
           \<and> tx_method tx = InvokeTx \<and> tx_member tx = m
           \<and> tx_request tx = \<lparr>chaincodeID = cid, fcn = ''createAccount'',
                               args = [enrollID], attrs = None\<rparr>"
  using assms by (auto simp add: CPChaincode_def createCompany_def invoke_def split: if_splits)

theorem createCompany_request_witness:
  "tx_request (res_tx (gm_callback
      (projr (snd (createCompany (projr (CPChaincode (Chain 0) (JStr ''cp''))) (JStr ''alice'') (Fn 1))))
      Null (Member 2)))
   = \<lparr>chaincodeID = JStr ''cp'', fcn = ''createAccount'', args = [JStr ''alice''], attrs = None\<rparr>"
  using createCompany_request [of 0 "JStr ''cp''" "projr (CPChaincode (Chain 0) (JStr ''cp''))" Null
      "JStr ''alice''" "Fn 1" 2]
  by (auto simp add: CPChaincode_def)

text \<open>
  C6: on every instance whose chain is a chain object, whatever its chaincodeID, and for
  every enrollID, ping(enrollID) invokes, once the identity is resolved, the request with
  the one fixed chaincode ID written in the source, function name ping, the argument list
  ["string"] and the attributes ["username", "role"].
\<close>

theorem ping_request:
  assumes "this_chain this = Chain c" and "\<not> truthy getMemberError"
  shows "\<exists>gm tx. snd (ping this enrollID cb) = Inr gm
           \<and> gm_chain gm = c \<and> gm_enrollID gm = enrollID
           \<and> gm_callback gm getMemberError (Member m) = Submitted tx
           \<and> tx_method tx = InvokeTx \<and> tx_member tx = m
           \<and> tx_request tx =
               \<lparr>chaincodeID = JStr ''5e3be7bd2c42bd0c8d72aaf3d41aaaae382fba4b8c6f6c0ba993df8322d956ca6e20c2ef67cd1e042a83d4725c3b23835ee65243c8d50a13a74679ed9afb8fdb'',
                fcn = ''ping'', args = [JStr ''string''],
                attrs = Some [JStr ''username'', JStr ''role'']\<rparr>"
  using assms by (simp add: ping_def invoke_def)

theorem ping_request_witness:
  "tx_request (res_tx (gm_callback
      (projr (snd (ping (projr (CPChaincode (Chain 0) (JStr ''cp''))) (JStr ''alice'') (Fn 1))))
      Null (Member 2)))
   = \<lparr>chaincodeID = JStr ''5e3be7bd2c42bd0c8d72aaf3d41aaaae382fba4b8c6f6c0ba993df8322d956ca6e20c2ef67cd1e042a83d4725c3b23835ee65243c8d50a13a74679ed9afb8fdb'',
      fcn = ''ping'', args = [JStr ''string''], attrs = Some [JStr ''username'', JStr ''role'']\<rparr>"
  using ping_request [of "projr (CPChaincode (Chain 0) (JStr ''cp''))" 0 Null "JStr ''alice''" "Fn 1" 2]
  by (auto simp add: CPChaincode_def)

text \<open>
  C8: transferPaper and createPaper invoke, once the identity is resolved, a request whose
  argument list has one element, \<^verbatim>\<open>JSON.stringify(paper)\<close>, and whose function name is
  transferPaper, respectively issueCommercialPaper. For a paper that is an object that
  element is a string, and reading the string back as JSON gives the paper, an object
  again: the paper is encoded, and encoded once.
\<close>

theorem paper_requests:
  assumes "this_chain this = Chain c" and "\<not> truthy getMemberError"
  shows "(\<exists>gm tx. snd (transferPaper this enrollID paper cb) = Inr gm
            \<and> gm_callback gm getMemberError (Member m) = Submitted tx
            \<and> tx_method tx = InvokeTx
            \<and> fcn (tx_request tx) = ''transferPaper''
            \<and> args (tx_request tx) = [JSON_stringify paper]
            \<and> (\<forall>ps. paper = JObj ps \<longrightarrow>
                  (\<exists>t qs. args (tx_request tx) = [JStr t] \<and> json_text paper = Some t
                     \<and> read_json t = Some (json_value paper) \<and> json_value paper = JObj qs)))
       \<and> (\<exists>gm tx. snd (createPaper this enrollID paper cb) = Inr gm
            \<and> gm_callback gm getMemberError (Member m) = Submitted tx
            \<and> tx_method tx = InvokeTx
            \<and> fcn (tx_request tx) = ''issueCommercialPaper''
            \<and> args (tx_request tx) = [JSON_stringify paper]
            \<and> (\<forall>ps. paper = JObj ps \<longrightarrow>
                  (\<exists>t qs. args (tx_request tx) = [JStr t] \<and> json_text paper = Some t
                     \<and> read_json t = Some (json_value paper) \<and> json_value paper = JObj qs)))"
proof -
  have obj: "\<exists>t qs. JSON_stringify paper = JStr t \<and> json_text paper = Some t
      \<and> read_json t = Some (json_value paper) \<and> json_value paper = JObj qs"
    if p: "paper = JObj ps" for ps
  proof -
    have "\<exists>t. json_text (JObj ps) = Some t" by simp
    then obtain t where t: "json_text paper = Some t" using p by auto
    have "read_json t = Some (json_value paper)" using t by (rule json_round_trip)
    with t p show ?thesis by (simp add: JSON_stringify_def)
  qed
  show ?thesis
    using assms obj
    by (simp add: transferPaper_def createPaper_def invoke_def)
qed

theorem paper_requests_witness:
  "args (tx_request (res_tx (gm_callback
      (projr (snd (transferPaper (projr (CPChaincode (Chain 0) (JStr ''cp''))) (JStr ''alice'')
                     (JObj [(''CUSIP'', JStr ''A1''), (''quantity'', JNum 120), (''memo'', Undefined)])
                     (Fn 1))))
      Null (Member 2))))
   = [JStr (''{'' @ CHR 0x22 # ''CUSIP'' @ CHR 0x22 # '':'' @ CHR 0x22 # ''A1'' @ CHR 0x22 # '','' @ CHR 0x22
            # ''quantity'' @ CHR 0x22 # '':120}'')]
   \<and> read_json (''{'' @ CHR 0x22 # ''CUSIP'' @ CHR 0x22 # '':'' @ CHR 0x22 # ''A1'' @ CHR 0x22 # '','' @ CHR 0x22
            # ''quantity'' @ CHR 0x22 # '':120}'')
       = Some (JObj [(''CUSIP'', JStr ''A1''), (''quantity'', JNum 120)])"
proof -
  have shown: "json_text (JObj [(''CUSIP'', JStr ''A1''), (''quantity'', JNum 120), (''memo'', Undefined)])
      = Some (''{'' @ CHR 0x22 # ''CUSIP'' @ CHR 0x22 # '':'' @ CHR 0x22 # ''A1'' @ CHR 0x22 # '','' @ CHR 0x22
            # ''quantity'' @ CHR 0x22 # '':120}'')"
    by code_simp
  show ?thesis
    using shown paper_requests [of "projr (CPChaincode (Chain 0) (JStr ''cp''))" 0 Null "JStr ''alice''"
      "JObj [(''CUSIP'', JStr ''A1''), (''quantity'', JNum 120), (''memo'', Undefined)]" "Fn 1" 2]
    by (auto simp add: CPChaincode_def)
qed

subsection \<open>The constructor\<close>

text \<open>
  C5: the constructor throws exactly when the chain or the chaincode ID is falsy, with
  its one error; when both are truthy it returns an instance that stores the two. No other
  input is checked: on an instance whose chain is a chain object, no operation throws
  before it returns, whatever enrollID, company, paper and callback it is given.
\<close>

theorem constructor_contract:
  "(isl (CPChaincode chain cid) \<longleftrightarrow> \<not> truthy_val chain \<or> \<not> truthy cid)
   \<and> (\<not> truthy_val chain \<or> \<not> truthy cid \<longrightarrow>
        CPChaincode chain cid =
          Inl (Error ''Cannot create chaincode helper without both a chain object and the chaincode ID!''))
   \<and> (truthy_val chain \<and> truthy cid \<longrightarrow>
        (\<exists>this. CPChaincode chain cid = Inr this \<and> this_chain this = chain
                 \<and> this_chaincodeID this = cid))
   \<and> (this_chain this = Chain c \<longrightarrow>
        \<not> isl (snd (createCompany this enrollID cb))
      \<and> \<not> isl (snd (getCompany this enrollID company cb))
      \<and> \<not> isl (snd (createPaper this enrollID paper cb))
      \<and> \<not> isl (snd (ping this enrollID cb))
      \<and> \<not> isl (snd (transferPaper this enrollID paper cb))
      \<and> \<not> isl (snd (getPapers this enrollID cb)))"
  by (auto simp add: CPChaincode_def facade_defs invoke_def query_def)

theorem constructor_contract_witness:
  "isl (CPChaincode (Chain 0) (JStr []))
   \<and> isl (CPChaincode (Data Undefined) (JStr ''cp''))
   \<and> CPChaincode (Chain 0) (JStr ''cp'')
       = Inr \<lparr>this_chain = Chain 0, this_chaincodeID = JStr ''cp'',
              this_queue = \<lparr>q_concurrency = 1, q_tasks = []\<rparr>\<rparr>
   \<and> \<not> isl (snd (createCompany (projr (CPChaincode (Chain 0) (JStr ''cp''))) Undefined (Data Undefined)))"
  using constructor_contract [of "Chain 0" "JStr []" "projr (CPChaincode (Chain 0) (JStr ''cp''))" 0
          Undefined "Data Undefined" Undefined Undefined]
        constructor_contract [of "Data Undefined" "JStr ''cp''"]
        constructor_contract [of "Chain 0" "JStr ''cp''"]
  by (auto simp add: CPChaincode_def)

subsection \<open>The bridges\<close>

text \<open>
  C4: once the identity is resolved, the first event of an invoke calls the callback with
  null and the results if it is \<^verbatim>\<open>completed\<close> or \<^verbatim>\<open>submitted\<close>, and with the error
  alone if it is \<^verbatim>\<open>error\<close>; for a callback that is a function \<open>k\<close> of the caller, that
  is a call of \<open>k\<close> with these arguments.
\<close>

theorem invoke_first_event:
  assumes "\<not> truthy getMemberError"
  shows "\<exists>gm tx. invoke (Chain c) enrollID req cb = Inr gm
           \<and> gm_callback gm getMemberError (Member m) = Submitted tx
           \<and> hd (deliver tx ((''completed'', results) # rest)) = call cb [Null, results]
           \<and> hd (deliver tx ((''submitted'', results) # rest)) = call cb [Null, results]
           \<and> hd (deliver tx ((''error'', err) # rest)) = call cb [err]
           \<and> (\<forall>k. cb = Value (Fn k) \<longrightarrow>
                 hd (deliver tx ((''completed'', results) # rest)) = Invoked k [Null, results]
               \<and> hd (deliver tx ((''submitted'', results) # rest)) = Invoked k [Null, results]
               \<and> hd (deliver tx ((''error'', err) # rest)) = Invoked k [err])"
  using assms by (simp add: invoke_def emit_def)

theorem invoke_first_event_witness:
  "hd (deliver (res_tx (gm_callback
       (projr (invoke (Chain 0) (JStr ''alice'')
                 \<lparr>chaincodeID = JStr ''cp'', fcn = ''ping'', args = [], attrs = None\<rparr> (Value (Fn 1))))
       (JStr []) (Member 2)))
     [(''submitted'', JStr ''tx1''), (''error'', JStr ''late'')])
   = Invoked 1 [Null, JStr ''tx1'']"
  using invoke_first_event [of "JStr []" 0 "JStr ''alice''"
      "\<lparr>chaincodeID = JStr ''cp'', fcn = ''ping'', args = [], attrs = None\<rparr>" "Value (Fn 1)" 2
      "JStr ''tx1''" "[(''error'', JStr ''late'')]" Undefined]
  by auto







end
